theory Spec2Isabelle
  imports Complex_Main
begin

section \<open>Student Report Card Manager\<close>

text \<open>
  A shallow embedding of \<^verbatim>\<open>Student_Report_Card_Manager.py\<close>: the class
  \<^verbatim>\<open>Student\<close>, the class \<^verbatim>\<open>GradeManager\<close> and the JSON persistence of the
  manager.

  Conventions of the embedding.
  \<^item> A Python \<^verbatim>\<open>str\<close> is a \<open>string\<close>; each \<open>char\<close> stands for one code point
    below 256.
  \<^item> A Python \<^verbatim>\<open>dict\<close> is an association list in insertion order whose keys are
    pairwise distinct; assignment \<^verbatim>\<open>d[k] = v\<close> is \<open>setitem\<close>.
  \<^item> A score is a \<open>real\<close>: the comparisons and the arithmetic of the source are
    taken exactly, so the rounding of binary floating point and the special
    values \<^verbatim>\<open>nan\<close> and \<^verbatim>\<open>inf\<close> are not part of the model.
  \<^item> A method that mutates its object returns the updated object. A method that
    raises returns \<open>Inl\<close> with the exception and the objects as they are at the
    moment of the raise.
  \<^item> Messages written with \<^verbatim>\<open>print\<close> are not modelled.
\<close>

subsection \<open>Strings and dictionaries\<close>

text \<open>The code points below 256 for which \<^verbatim>\<open>str.isspace\<close> holds.\<close>

definition isspace :: "char \<Rightarrow> bool" where
  "isspace c \<longleftrightarrow> c \<in> set [CHR 0x09, CHR 0x0A, CHR 0x0B, CHR 0x0C, CHR 0x0D,
     CHR 0x1C, CHR 0x1D, CHR 0x1E, CHR 0x1F, CHR 0x20, CHR 0x85, CHR 0xA0]"

text \<open>\<^verbatim>\<open>str.strip()\<close>: whitespace is removed at both ends.\<close>

definition strip :: "string \<Rightarrow> string" where
  "strip s = rev (dropWhile isspace (rev (dropWhile isspace s)))"

text \<open>
  \<^verbatim>\<open>d[k] = v\<close>: an existing key keeps its position and takes the new value, a new
  key is appended.
\<close>

primrec setitem :: "('k \<times> 'v) list \<Rightarrow> 'k \<Rightarrow> 'v \<Rightarrow> ('k \<times> 'v) list" where
  "setitem [] k v = [(k, v)]"
| "setitem (p # ps) k v = (if fst p = k then (k, v) # ps else p # setitem ps k v)"

text \<open>\<^verbatim>\<open>d[k]\<close> and \<^verbatim>\<open>k in d\<close> are \<open>map_of d k\<close>.\<close>

datatype error = ValueError | KeyError | TypeError | JSONDecodeError | OSError

subsection \<open>class Student\<close>

record student =
  student_id :: int
  name :: string
  subjects :: "(string \<times> real) list"

text \<open>\<^verbatim>\<open>Student.__init__\<close>; the field \<^verbatim>\<open>id\<close> is \<open>student_id\<close> here.\<close>

definition Student :: "int \<Rightarrow> string \<Rightarrow> student" where
  "Student sid nm = \<lparr>student_id = sid, name = strip nm, subjects = []\<rparr>"

definition set_score :: "student \<Rightarrow> string \<Rightarrow> real \<Rightarrow> (error \<times> student) + student" where
  "set_score stu subject score =
     (if \<not> (0 \<le> score \<and> score \<le> 100) then Inl (ValueError, stu)
      else Inr (stu\<lparr>subjects := setitem (subjects stu) (strip subject) score\<rparr>))"

text \<open>The builtin \<^verbatim>\<open>sum\<close> adds from the left, starting at 0.\<close>

definition py_sum :: "real list \<Rightarrow> real" where
  "py_sum xs = foldl (+) 0 xs"

definition average :: "student \<Rightarrow> real" where
  "average stu =
     (if subjects stu = [] then 0
      else py_sum (map snd (subjects stu)) / real (length (subjects stu)))"

definition grade :: "student \<Rightarrow> string" where
  "grade stu =
     (let avg = average stu in
      if avg \<ge> 90 then ''A''
      else if avg \<ge> 75 then ''B''
      else if avg \<ge> 50 then ''C''
      else ''Fail'')"

subsection \<open>JSON values and files\<close>

text \<open>
  What \<^verbatim>\<open>json.loads\<close> returns for one element of the array in the file: an
  object, of which the keys \<^verbatim>\<open>id\<close>, \<^verbatim>\<open>name\<close> and \<^verbatim>\<open>subjects\<close> are kept (each
  may be absent), or a value that is no object. The values under the three keys
  have the types of the file format (an integer, a string, an object of
  numbers); \<^verbatim>\<open>from_dict\<close> does not check them, and a file with other types there is
  outside this model. The text produced by \<^verbatim>\<open>json.dumps\<close> is represented by the
  value \<^verbatim>\<open>json.loads\<close> reads back from it.
\<close>

datatype element =
  Object "int option" "string option" "(string \<times> real) list option"
| NotObject

text \<open>
  The content of a file: text that \<^verbatim>\<open>json.loads\<close> rejects, or a JSON array. A file
  whose root is another JSON value is not modelled. A path names a file, a directory
  or nothing; \<^verbatim>\<open>Path.exists\<close> holds of the first two, and reading or writing a
  directory raises OSError.
\<close>

datatype content = Malformed | Array "element list"

datatype entry = Absent | Directory | File content

type_synonym filesystem = "string \<Rightarrow> entry"

definition DATA_FILE :: string where
  "DATA_FILE = ''grades.json''"

definition to_dict :: "student \<Rightarrow> element" where
  "to_dict stu = Object (Some (student_id stu)) (Some (name stu)) (Some (subjects stu))"

text \<open>
  \<^verbatim>\<open>data["id"]\<close> and \<^verbatim>\<open>data["name"]\<close> raise KeyError on a missing key and
  TypeError on a value that is no object; \<^verbatim>\<open>data.get("subjects", {})\<close> defaults.
\<close>

fun from_dict :: "element \<Rightarrow> error + student" where
  "from_dict NotObject = Inl TypeError"
| "from_dict (Object None nm subs) = Inl KeyError"
| "from_dict (Object (Some i) None subs) = Inl KeyError"
| "from_dict (Object (Some i) (Some nm) subs) =
     Inr ((Student i nm)\<lparr>subjects := (case subs of None \<Rightarrow> [] | Some d \<Rightarrow> d)\<rparr>)"

text \<open>The comprehension \<^verbatim>\<open>[Student.from_dict(d) for d in data]\<close>.\<close>

fun from_dicts :: "element list \<Rightarrow> error + student list" where
  "from_dicts [] = Inr []"
| "from_dicts (d # ds) =
     (case from_dict d of
        Inl e \<Rightarrow> Inl e
      | Inr s \<Rightarrow> (case from_dicts ds of Inl e \<Rightarrow> Inl e | Inr ss \<Rightarrow> Inr (s # ss)))"

subsection \<open>class GradeManager\<close>

record manager =
  students :: "student list"
  next_id :: int

definition GradeManager :: manager where
  "GradeManager = \<lparr>students = [], next_id = 1\<rparr>"

text \<open>The loop of \<^verbatim>\<open>add_student\<close> over \<^verbatim>\<open>scores.items()\<close>.\<close>

fun add_student_loop :: "student \<Rightarrow> (string \<times> real) list \<Rightarrow> (error \<times> student) + student" where
  "add_student_loop stu [] = Inr stu"
| "add_student_loop stu ((sub, sc) # rest) =
     (case set_score stu sub sc of
        Inl e \<Rightarrow> Inl e
      | Inr stu' \<Rightarrow> add_student_loop stu' rest)"

text \<open>
  On a raise the result holds the exception, the record under construction and
  the manager, as they are when the exception leaves \<^verbatim>\<open>add_student\<close>.
\<close>

definition add_student ::
  "manager \<Rightarrow> string \<Rightarrow> (string \<times> real) list \<Rightarrow> (error \<times> student \<times> manager) + (student \<times> manager)" where
  "add_student m nm scores =
     (let stu = Student (next_id m) nm in
      case add_student_loop stu scores of
        Inl (e, stu') \<Rightarrow> Inl (e, stu', m)
      | Inr stu' \<Rightarrow> Inr (stu', m\<lparr>students := students m @ [stu'], next_id := next_id m + 1\<rparr>))"


definition delete :: "manager \<Rightarrow> int \<Rightarrow> bool \<times> manager" where
  "delete m sid =
     (let before = length (students m);
          m' = m\<lparr>students := filter (\<lambda>s. student_id s \<noteq> sid) (students m)\<rparr>
      in (length (students m') < before, m'))"

text \<open>
  \<^verbatim>\<open>write_text\<close> replaces the file, or creates it; on a directory it raises.
\<close>

definition save :: "manager \<Rightarrow> filesystem \<Rightarrow> string \<Rightarrow> error + filesystem" where
  "save m fs file =
     (let data = map to_dict (students m) in
      case fs file of
        Directory \<Rightarrow> Inl OSError
      | _ \<Rightarrow> Inr (fs(file := File (Array data))))"

text \<open>The builtin \<^verbatim>\<open>max\<close> of a sequence raises ValueError when it is empty.\<close>

fun py_max :: "int list \<Rightarrow> error + int" where
  "py_max [] = Inl ValueError"
| "py_max (x # xs) = Inr (fold max xs x)"

definition load :: "manager \<Rightarrow> filesystem \<Rightarrow> string \<Rightarrow> (error \<times> manager) + manager" where
  "load m fs file =
     (case fs file of
        Absent \<Rightarrow> Inr m
      | Directory \<Rightarrow> Inl (OSError, m)
      | File Malformed \<Rightarrow> Inl (JSONDecodeError, m)
      | File (Array data) \<Rightarrow>
          (case from_dicts data of
             Inl e \<Rightarrow> Inl (e, m)
           | Inr stus \<Rightarrow>
               (let m1 = m\<lparr>students := stus\<rparr> in
                if students m1 \<noteq> [] then
                  (case py_max (map student_id (students m1)) of
                     Inl e \<Rightarrow> Inl (e, m1)
                   | Inr mx \<Rightarrow> Inr (m1\<lparr>next_id := mx + 1\<rparr>))
                else Inr m1)))"

text \<open>
  The caller of \<^verbatim>\<open>add_student\<close>: menu choice 1 of \<^verbatim>\<open>main\<close>, taken once for each
  request of a list, in order. It stops at the first exception.
\<close>

fun add_students ::
  "manager \<Rightarrow> (string \<times> (string \<times> real) list) list \<Rightarrow>
     (error \<times> student \<times> manager) + (student list \<times> manager)" where
  "add_students m [] = Inr ([], m)"
| "add_students m ((nm, scores) # rest) =
     (case add_student m nm scores of
        Inl e \<Rightarrow> Inl e
      | Inr (stu, m') \<Rightarrow>
          (case add_students m' rest of
             Inl e \<Rightarrow> Inl e
           | Inr (stus, m'') \<Rightarrow> Inr (stu # stus, m'')))"

text \<open>A file system without any file.\<close>

definition no_files :: filesystem where
  "no_files file = Absent"

section \<open>Properties\<close>

subsection \<open>Dictionaries, strings and builtins\<close>

lemma map_of_setitem: "map_of (setitem d k v) = (map_of d)(k \<mapsto> v)"
  by (induction d) (auto simp: fun_eq_iff)

lemma keys_setitem: "fst ` set (setitem d k v) = insert k (fst ` set d)"
  by (induction d) auto

lemma distinct_setitem: "distinct (map fst d) \<Longrightarrow> distinct (map fst (setitem d k v))"
  by (induction d) (auto simp: keys_setitem)

lemma map_of_foldl_setitem:
  "map_of (foldl (\<lambda>d (k, v). setitem d (f k) v) d0 xs) =
   map_of (rev (map (\<lambda>(k, v). (f k, v)) xs) @ d0)"
proof (induction xs arbitrary: d0)
  case Nil
  show ?case by simp
next
  case (Cons x xs)
  obtain k v where x: "x = (k, v)" by (cases x)
  show ?case
    by (simp add: x Cons.IH map_of_setitem map_add_def fun_eq_iff split: option.splits)
qed

lemma keys_foldl_setitem:
  "fst ` set (foldl (\<lambda>d (k, v). setitem d (f k) v) d0 xs) = fst ` set d0 \<union> f ` fst ` set xs"
proof (induction xs arbitrary: d0)
  case Nil
  show ?case by simp
next
  case (Cons x xs)
  obtain k v where x: "x = (k, v)" by (cases x)
  show ?case by (auto simp: x Cons.IH keys_setitem)
qed

lemma map_of_trimmed_entry:
  assumes "distinct (map (\<lambda>(k, v). f k) xs)" and "(k, v) \<in> set xs"
  shows "map_of (rev (map (\<lambda>(k, v). (f k, v)) xs)) (f k) = Some v"
proof -
  have "map fst (rev (map (\<lambda>(k, v). (f k, v)) xs)) = rev (map (\<lambda>(k, v). f k) xs)"
    by (simp add: rev_map case_prod_unfold comp_def)
  then have "distinct (map fst (rev (map (\<lambda>(k, v). (f k, v)) xs)))"
    using assms(1) by simp
  moreover have "(f k, v) \<in> set (rev (map (\<lambda>(k, v). (f k, v)) xs))"
    using assms(2) by force
  ultimately show ?thesis by (rule map_of_is_SomeI)
qed



lemma dropWhile_snoc_keeps_last:
  "\<not> P x \<Longrightarrow> \<exists>ys. dropWhile P (zs @ [x]) = ys @ [x]"
  by (induction zs) auto

lemma dropWhile_rstrip:
  "dropWhile P (rev (dropWhile P (rev (dropWhile P s)))) = rev (dropWhile P (rev (dropWhile P s)))"
proof (cases "dropWhile P s")
  case Nil
  show ?thesis unfolding Nil by simp
next
  case (Cons x xs)
  then have nx: "\<not> P x"
    using hd_dropWhile[of P s] by (metis list.sel(1) list.distinct(1))
  from dropWhile_snoc_keeps_last[of P x "rev xs"] nx
  obtain ys where "dropWhile P (rev xs @ [x]) = ys @ [x]" by blast
  with Cons nx show ?thesis by simp
qed

lemma strip_idem: "strip (strip s) = strip s"
  unfolding strip_def by (simp add: dropWhile_rstrip)



lemma py_max_Max: "xs \<noteq> [] \<Longrightarrow> py_max xs = Inr (Max (set xs))"
  by (cases xs) (simp_all add: Max.set_eq_fold del: set_simps)



subsection \<open>Scores, averages and grades of one record\<close>

text \<open>
  Claim C5. For every record and every score \<open>s\<close> outside the closed range from 0 to
  100, \<open>set_score\<close> raises ValueError and the record, so also its subjects, is as
  before. For every \<open>s\<close> within the range it returns, the trimmed subject then maps
  to exactly \<open>s\<close> (whether the key was new or present), every other key maps to what
  it did, the keys stay pairwise distinct, and the id and the name are untouched.
\<close>
theorem set_score_validates:
  "(\<not> (0 \<le> s \<and> s \<le> 100) \<longrightarrow> set_score stu subject s = Inl (ValueError, stu)) \<and>
   (0 \<le> s \<and> s \<le> 100 \<longrightarrow>
      (\<exists>stu'. set_score stu subject s = Inr stu' \<and>
         map_of (subjects stu') (strip subject) = Some s \<and>
         (\<forall>k. k \<noteq> strip subject \<longrightarrow> map_of (subjects stu') k = map_of (subjects stu) k) \<and>
         (distinct (map fst (subjects stu)) \<longrightarrow> distinct (map fst (subjects stu'))) \<and>
         student_id stu' = student_id stu \<and> name stu' = name stu))"
  by (simp add: set_score_def map_of_setitem distinct_setitem)

theorem set_score_validates_witness:
  "set_score (Student 1 ''Ada'') '' Math '' 150 = Inl (ValueError, Student 1 ''Ada'') \<and>
   set_score (Student 1 ''Ada'') '' Math '' (-1) = Inl (ValueError, Student 1 ''Ada'') \<and>
   (\<exists>stu'. set_score (Student 1 ''Ada'') '' Math '' 95 = Inr stu' \<and>
      map_of (subjects stu') ''Math'' = Some 95 \<and> map_of (subjects stu') ''Art'' = None) \<and>
   set_score \<lparr>student_id = 1, name = ''Ada'', subjects = [(''Math'', 50), (''Art'', 70)]\<rparr>
       ''Math'' 100 =
     Inr \<lparr>student_id = 1, name = ''Ada'', subjects = [(''Math'', 100), (''Art'', 70)]\<rparr>"
  using set_score_validates [of 150 "Student 1 ''Ada''" "'' Math ''"]
    set_score_validates [of "-1" "Student 1 ''Ada''" "'' Math ''"]
    set_score_validates [of 95 "Student 1 ''Ada''" "'' Math ''"]
    set_score_validates [of 100
      "\<lparr>student_id = 1, name = ''Ada'', subjects = [(''Math'', 50), (''Art'', 70)]\<rparr>" "''Math''"]
  by (auto simp: strip_def isspace_def Student_def set_score_def)



text \<open>
  Claim C6. \<open>grade\<close> is the step function of \<open>average\<close>, each band closed at its lower
  end: at least 90 is A, from 75 and below 90 is B, from 50 and below 75 is C, below 50
  is Fail.
\<close>
theorem grade_bands:
  "(average stu \<ge> 90 \<longrightarrow> grade stu = ''A'') \<and>
   (75 \<le> average stu \<and> average stu < 90 \<longrightarrow> grade stu = ''B'') \<and>
   (50 \<le> average stu \<and> average stu < 75 \<longrightarrow> grade stu = ''C'') \<and>
   (average stu < 50 \<longrightarrow> grade stu = ''Fail'')"
  by (simp add: grade_def Let_def)

theorem grade_bands_witness:
  "grade ((Student 1 ''Ada'')\<lparr>subjects := [(''M'', 90)]\<rparr>) = ''A'' \<and>
   grade ((Student 1 ''Ada'')\<lparr>subjects := [(''M'', 89.999)]\<rparr>) = ''B'' \<and>
   grade ((Student 1 ''Ada'')\<lparr>subjects := [(''M'', 75)]\<rparr>) = ''B'' \<and>
   grade ((Student 1 ''Ada'')\<lparr>subjects := [(''M'', 74.999)]\<rparr>) = ''C'' \<and>
   grade ((Student 1 ''Ada'')\<lparr>subjects := [(''M'', 50)]\<rparr>) = ''C'' \<and>
   grade ((Student 1 ''Ada'')\<lparr>subjects := [(''M'', 49.999)]\<rparr>) = ''Fail''"
  using grade_bands [of "(Student 1 ''Ada'')\<lparr>subjects := [(''M'', 90)]\<rparr>"]
    grade_bands [of "(Student 1 ''Ada'')\<lparr>subjects := [(''M'', 89.999)]\<rparr>"]
    grade_bands [of "(Student 1 ''Ada'')\<lparr>subjects := [(''M'', 75)]\<rparr>"]
    grade_bands [of "(Student 1 ''Ada'')\<lparr>subjects := [(''M'', 74.999)]\<rparr>"]
    grade_bands [of "(Student 1 ''Ada'')\<lparr>subjects := [(''M'', 50)]\<rparr>"]
    grade_bands [of "(Student 1 ''Ada'')\<lparr>subjects := [(''M'', 49.999)]\<rparr>"]
  by (simp add: average_def py_sum_def)

subsection \<open>Adding a record\<close>

lemma add_student_loop_ok:
  "\<forall>(k, v)\<in>set scores. 0 \<le> v \<and> v \<le> 100 \<Longrightarrow>
   add_student_loop stu scores =
     Inr (stu\<lparr>subjects := foldl (\<lambda>d (k, v). setitem d (strip k) v) (subjects stu) scores\<rparr>)"
  by (induction scores arbitrary: stu) (auto simp: set_score_def)

lemma add_student_loop_raises:
  "\<exists>(k, v)\<in>set scores. \<not> (0 \<le> v \<and> v \<le> 100) \<Longrightarrow>
   add_student_loop stu scores =
     Inl (ValueError, stu\<lparr>subjects := foldl (\<lambda>d (k, v). setitem d (strip k) v) (subjects stu)
            (takeWhile (\<lambda>(k, v). 0 \<le> v \<and> v \<le> 100) scores)\<rparr>)"
proof (induction scores arbitrary: stu)
  case Nil
  then show ?case by simp
next
  case (Cons x rest)
  obtain k v where x: "x = (k, v)" by (cases x)
  show ?case
  proof (cases "0 \<le> v \<and> v \<le> 100")
    case True
    with Cons.prems x have "\<exists>(k, v)\<in>set rest. \<not> (0 \<le> v \<and> v \<le> 100)" by auto
    from Cons.IH[OF this] True show ?thesis by (simp add: x set_score_def)
  next
    case False
    then show ?thesis by (auto simp: x set_score_def)
  qed
qed

lemma add_student_raises:
  assumes "\<exists>(k, v)\<in>set scores. \<not> (0 \<le> v \<and> v \<le> 100)"
  shows "add_student m nm scores =
     Inl (ValueError,
          \<lparr>student_id = next_id m, name = strip nm,
           subjects = foldl (\<lambda>d (k, v). setitem d (strip k) v) []
             (takeWhile (\<lambda>(k, v). 0 \<le> v \<and> v \<le> 100) scores)\<rparr>,
          m)"
  by (simp add: add_student_def add_student_loop_raises[OF assms] Student_def)

lemma add_student_returns:
  assumes "\<forall>(k, v)\<in>set scores. 0 \<le> v \<and> v \<le> 100"
  shows "add_student m nm scores =
     (let stu = \<lparr>student_id = next_id m, name = strip nm,
                  subjects = foldl (\<lambda>d (k, v). setitem d (strip k) v) [] scores\<rparr>
      in Inr (stu, m\<lparr>students := students m @ [stu], next_id := next_id m + 1\<rparr>))"
  by (simp add: add_student_def add_student_loop_ok[OF assms] Student_def Let_def)

lemma add_students_ids:
  "\<forall>(nm, scores)\<in>set reqs. \<forall>(k, v)\<in>set scores. 0 \<le> v \<and> v \<le> 100 \<Longrightarrow>
   \<exists>stus m'. add_students m reqs = Inr (stus, m') \<and>
     map student_id stus = [next_id m..next_id m + int (length reqs) - 1] \<and>
     students m' = students m @ stus \<and>
     next_id m' = next_id m + int (length reqs)"
proof (induction reqs arbitrary: m)
  case Nil
  show ?case by simp
next
  case (Cons r rest)
  obtain nm scores where r: "r = (nm, scores)" by (cases r)
  from Cons.prems r have ok: "\<forall>(k, v)\<in>set scores. 0 \<le> v \<and> v \<le> 100"
    and rest: "\<forall>(nm, scores)\<in>set rest. \<forall>(k, v)\<in>set scores. 0 \<le> v \<and> v \<le> 100"
    by auto
  define stu where "stu = \<lparr>student_id = next_id m, name = strip nm,
      subjects = foldl (\<lambda>d (k, v). setitem d (strip k) v) [] scores\<rparr>"
  define m1 where "m1 = m\<lparr>students := students m @ [stu], next_id := next_id m + 1\<rparr>"
  have add: "add_student m nm scores = Inr (stu, m1)"
    by (simp add: add_student_returns[OF ok] stu_def m1_def Let_def)
  from Cons.IH[OF rest, of m1] obtain stus m2 where
    run: "add_students m1 rest = Inr (stus, m2)" and
    ids: "map student_id stus = [next_id m1..next_id m1 + int (length rest) - 1]" and
    sts: "students m2 = students m1 @ stus" and
    nxt: "next_id m2 = next_id m1 + int (length rest)"
    by blast
  have "add_students m (r # rest) = Inr (stu # stus, m2)"
    by (simp add: r add run)
  moreover have "map student_id (stu # stus) = [next_id m..next_id m + int (length (r # rest)) - 1]"
    using ids by (simp add: stu_def m1_def upto_rec1[of "next_id m"])
  moreover have "students m2 = students m @ (stu # stus)"
    using sts by (simp add: m1_def)
  moreover have "next_id m2 = next_id m + int (length (r # rest))"
    using nxt by (simp add: m1_def)
  ultimately show ?case by blast
qed

lemma add_student_ids_unique:
  assumes "add_student m nm scores = Inr (stu, m')"
    and "\<forall>s\<in>set (students m). student_id s < next_id m"
    and "distinct (map student_id (students m))"
  shows "(\<forall>s\<in>set (students m'). student_id s < next_id m') \<and>
         distinct (map student_id (students m'))"
proof -
  from assms(1) obtain stu0 where
    "add_student_loop (Student (next_id m) nm) scores = Inr stu0"
    by (auto simp: add_student_def Let_def split: sum.splits prod.splits)
  then have ok: "\<forall>(k, v)\<in>set scores. 0 \<le> v \<and> v \<le> 100"
    using add_student_loop_raises[of scores "Student (next_id m) nm"] by fastforce
  from assms(1) add_student_returns[OF ok, of m nm]
  have "student_id stu = next_id m"
    and "m' = m\<lparr>students := students m @ [stu], next_id := next_id m + 1\<rparr>"
    by (auto simp: Let_def)
  with assms(2,3) show ?thesis by fastforce
qed

text \<open>
  Claim C1. When some score of \<open>scores\<close> lies outside the range from 0 to 100,
  \<open>add_student\<close> raises ValueError, for every manager and every name. The record under
  construction is then exactly what the loop makes of the entries before the first
  invalid one: each of their trimmed keys is set, to the score of the last such entry
  with that trimmed key. Nothing is rolled back.
\<close>
theorem add_student_raises_partial:
  assumes "\<exists>(k, v)\<in>set scores. \<not> (0 \<le> v \<and> v \<le> 100)"
  shows "\<exists>stu m'. add_student m nm scores = Inl (ValueError, stu, m') \<and>
           add_student_loop (Student (next_id m) nm)
             (takeWhile (\<lambda>(k, v). 0 \<le> v \<and> v \<le> 100) scores) = Inr stu \<and>
           map_of (subjects stu) =
             map_of (rev (map (\<lambda>(k, v). (strip k, v))
               (takeWhile (\<lambda>(k, v). 0 \<le> v \<and> v \<le> 100) scores))) \<and>
           (\<forall>(k, v)\<in>set (takeWhile (\<lambda>(k, v). 0 \<le> v \<and> v \<le> 100) scores).
              strip k \<in> dom (map_of (subjects stu)))"
proof -
  let ?done = "takeWhile (\<lambda>(k, v). 0 \<le> v \<and> v \<le> 100) scores"
  let ?stu = "\<lparr>student_id = next_id m, name = strip nm,
                subjects = foldl (\<lambda>d (k, v). setitem d (strip k) v) [] ?done\<rparr>"
  have ok: "\<forall>(k, v)\<in>set ?done. 0 \<le> v \<and> v \<le> 100"
    by (auto dest: set_takeWhileD)
  have "add_student m nm scores = Inl (ValueError, ?stu, m)"
    by (rule add_student_raises[OF assms])
  moreover have "add_student_loop (Student (next_id m) nm) ?done = Inr ?stu"
    by (simp add: add_student_loop_ok[OF ok] Student_def)
  moreover have "map_of (subjects ?stu) = map_of (rev (map (\<lambda>(k, v). (strip k, v)) ?done))"
    by (simp add: map_of_foldl_setitem)
  moreover have "dom (map_of (subjects ?stu)) = (\<lambda>p. strip (fst p)) ` set ?done"
    by (simp add: dom_map_of_conv_image_fst keys_foldl_setitem image_image)
  then have "\<forall>(k, v)\<in>set ?done. strip k \<in> dom (map_of (subjects ?stu))"
    by (simp only:) force
  ultimately show ?thesis by blast
qed

theorem add_student_raises_partial_witness:
  "add_student GradeManager '' Ada '' [(''Math'', 95), ('' History'', 88), (''Art'', 150), (''PE'', 60)] =
     Inl (ValueError,
          \<lparr>student_id = 1, name = ''Ada'', subjects = [(''Math'', 95), (''History'', 88)]\<rparr>,
          GradeManager)"
  using add_student_raises_partial [of "[(''Math'', 95), ('' History'', 88), (''Art'', 150), (''PE'', 60)]"
      GradeManager "'' Ada ''"]
  by (simp add: add_student_def Student_def set_score_def strip_def isspace_def GradeManager_def)

text \<open>
  Claim C10. When some score of \<open>scores\<close> lies outside the range from 0 to 100, the
  failing \<open>add_student\<close> leaves the manager as it was: the record under construction
  is not appended and \<open>next_id\<close> is not incremented.
\<close>
theorem add_student_raises_manager_unchanged:
  assumes "\<exists>(k, v)\<in>set scores. \<not> (0 \<le> v \<and> v \<le> 100)"
  shows "\<exists>e stu m'. add_student m nm scores = Inl (e, stu, m') \<and>
           m' = m \<and> students m' = students m \<and> next_id m' = next_id m"
  using add_student_raises[OF assms] by simp

theorem add_student_raises_manager_unchanged_witness:
  "\<exists>e stu. add_student \<lparr>students = [\<lparr>student_id = 1, name = ''Ada'', subjects = []\<rparr>], next_id = 2\<rparr>
       ''Bo'' [(''Math'', 95), (''Art'', -5)] =
     Inl (e, stu, \<lparr>students = [\<lparr>student_id = 1, name = ''Ada'', subjects = []\<rparr>], next_id = 2\<rparr>)"
  using add_student_raises_manager_unchanged
    [of "[(''Math'', 95), (''Art'', -5)]"
        "\<lparr>students = [\<lparr>student_id = 1, name = ''Ada'', subjects = []\<rparr>], next_id = 2\<rparr>" "''Bo''"]
  by simp

text \<open>
  Claim C8, as amended. When all scores of \<open>scores\<close> lie in the range from 0 to 100,
  \<open>add_student\<close> returns a record whose id is the current \<open>next_id\<close> and whose name is
  the trimmed name. Its subjects have the trimmed keys of \<open>scores\<close> and map each to
  the score of the last entry with that trimmed key; so when the keys of \<open>scores\<close> are
  pairwise distinct after trimming, every entry is held under its trimmed key. The
  record is appended at the end of the collection and \<open>next_id\<close> grows by one. Adding
  a list of students to a new manager gives them the ids 1, 2, 3 and so on.
\<close>
theorem add_student_returns_record:
  "((\<forall>(k, v)\<in>set scores. 0 \<le> v \<and> v \<le> 100) \<longrightarrow>
      (\<exists>stu m'. add_student m nm scores = Inr (stu, m') \<and>
         student_id stu = next_id m \<and> name stu = strip nm \<and>
         map_of (subjects stu) = map_of (rev (map (\<lambda>(k, v). (strip k, v)) scores)) \<and>
         dom (map_of (subjects stu)) = strip ` fst ` set scores \<and>
         (distinct (map (\<lambda>(k, v). strip k) scores) \<longrightarrow>
            (\<forall>(k, v)\<in>set scores. map_of (subjects stu) (strip k) = Some v)) \<and>
         students m' = students m @ [stu] \<and> next_id m' = next_id m + 1)) \<and>
   ((\<forall>(nm, scores)\<in>set reqs. \<forall>(k, v)\<in>set scores. 0 \<le> v \<and> v \<le> 100) \<longrightarrow>
      (\<exists>stus m'. add_students GradeManager reqs = Inr (stus, m') \<and>
         map student_id stus = [1..int (length reqs)] \<and> students m' = stus))"
proof (intro conjI impI)
  assume ok: "\<forall>(k, v)\<in>set scores. 0 \<le> v \<and> v \<le> 100"
  let ?stu = "\<lparr>student_id = next_id m, name = strip nm,
                subjects = foldl (\<lambda>d (k, v). setitem d (strip k) v) [] scores\<rparr>"
  let ?m' = "m\<lparr>students := students m @ [?stu], next_id := next_id m + 1\<rparr>"
  have "add_student m nm scores = Inr (?stu, ?m')"
    by (simp add: add_student_returns[OF ok] Let_def)
  moreover have lookups: "map_of (subjects ?stu) = map_of (rev (map (\<lambda>(k, v). (strip k, v)) scores))"
    by (simp add: map_of_foldl_setitem)
  moreover have "dom (map_of (subjects ?stu)) = strip ` fst ` set scores"
    by (simp add: dom_map_of_conv_image_fst keys_foldl_setitem)
  moreover have "distinct (map (\<lambda>(k, v). strip k) scores) \<longrightarrow>
      (\<forall>(k, v)\<in>set scores. map_of (subjects ?stu) (strip k) = Some v)"
    unfolding lookups by (auto intro: map_of_trimmed_entry)
  ultimately show "\<exists>stu m'. add_student m nm scores = Inr (stu, m') \<and>
         student_id stu = next_id m \<and> name stu = strip nm \<and>
         map_of (subjects stu) = map_of (rev (map (\<lambda>(k, v). (strip k, v)) scores)) \<and>
         dom (map_of (subjects stu)) = strip ` fst ` set scores \<and>
         (distinct (map (\<lambda>(k, v). strip k) scores) \<longrightarrow>
            (\<forall>(k, v)\<in>set scores. map_of (subjects stu) (strip k) = Some v)) \<and>
         students m' = students m @ [stu] \<and> next_id m' = next_id m + 1"
    by (intro exI[of _ ?stu] exI[of _ ?m']) simp
next
  assume "\<forall>(nm, scores)\<in>set reqs. \<forall>(k, v)\<in>set scores. 0 \<le> v \<and> v \<le> 100"
  from add_students_ids[OF this, of GradeManager]
  show "\<exists>stus m'. add_students GradeManager reqs = Inr (stus, m') \<and>
         map student_id stus = [1..int (length reqs)] \<and> students m' = stus"
    by (auto simp: GradeManager_def)
qed

theorem add_student_returns_record_witness:
  "add_student GradeManager '' Ada '' [(''Math '', 95), (''History'', 88)] =
     Inr (\<lparr>student_id = 1, name = ''Ada'', subjects = [(''Math'', 95), (''History'', 88)]\<rparr>,
          \<lparr>students = [\<lparr>student_id = 1, name = ''Ada'',
                         subjects = [(''Math'', 95), (''History'', 88)]\<rparr>],
           next_id = 2\<rparr>) \<and>
   map student_id (fst (projr (add_students GradeManager
        [(''Ada'', [(''Math'', 95), (''History'', 88)]), (''Bo'', []), (''Cy'', [(''Art'', 70)])]))) =
     [1, 2, 3]"
proof -
  have ids: "[1..int (length [(''Ada'', [(''Math'', 95::real), (''History'', 88)]), (''Bo'', []),
      (''Cy'', [(''Art'', 70)])])] = [1, 2, 3]"
    by (simp add: upto_rec1)
  show ?thesis
    using add_student_returns_record [of "[(''Math '', 95), (''History'', 88)]" GradeManager "'' Ada ''"
        "[(''Ada'', [(''Math'', 95), (''History'', 88)]), (''Bo'', []), (''Cy'', [(''Art'', 70)])]"]
    unfolding ids
    by (simp add: add_student_def Student_def set_score_def strip_def isspace_def GradeManager_def
        Let_def)
qed

text \<open>
  Claim C8 as first stated asks that the subjects hold every entry of \<open>scores\<close>. Two
  keys that differ only in surrounding whitespace become one subject, and the later
  entry overwrites the earlier: the entry Math: 90 is not held.
\<close>
theorem add_student_collision_counterexample:
  "add_student GradeManager ''Ada'' [(''Math'', 90), ('' Math'', 50)] =
     Inr (\<lparr>student_id = 1, name = ''Ada'', subjects = [(''Math'', 50)]\<rparr>,
          \<lparr>students = [\<lparr>student_id = 1, name = ''Ada'', subjects = [(''Math'', 50)]\<rparr>],
           next_id = 2\<rparr>)"
  by (simp add: add_student_def Student_def set_score_def strip_def isspace_def GradeManager_def)

subsection \<open>Deleting a record\<close>




subsection \<open>Loading and saving\<close>

lemma from_dicts_objects:
  "\<forall>d\<in>set data. \<exists>i nm subs. d = Object (Some i) (Some nm) subs \<Longrightarrow>
   \<exists>stus. from_dicts data = Inr stus \<and> list_all2 (\<lambda>d s. from_dict d = Inr s) data stus"
proof (induction data)
  case Nil
  show ?case by simp
next
  case (Cons d ds)
  from Cons.prems obtain i nm subs where d: "d = Object (Some i) (Some nm) subs" by auto
  from Cons obtain stus where "from_dicts ds = Inr stus"
    and "list_all2 (\<lambda>d s. from_dict d = Inr s) ds stus" by auto
  then show ?case by (simp add: d)
qed

lemma from_dicts_to_dict:
  "\<forall>s\<in>set stus. strip (name s) = name s \<Longrightarrow> from_dicts (map to_dict stus) = Inr stus"
  by (induction stus) (simp_all add: to_dict_def Student_def)

text \<open>
  Claim C2, as amended. \<open>load\<close> on a path without a file raises nothing and leaves
  the manager as it was, the collection and \<open>next_id\<close> alike. A new manager therefore
  stays empty.
\<close>
theorem load_missing_file:
  assumes "fs file = Absent"
  shows "load m fs file = Inr m \<and>
         load GradeManager fs file = Inr GradeManager \<and> students GradeManager = []"
  using assms by (simp add: load_def GradeManager_def)

theorem load_missing_file_witness:
  "no_files DATA_FILE = Absent \<and>
   load \<lparr>students = [], next_id = 4\<rparr> no_files DATA_FILE = Inr \<lparr>students = [], next_id = 4\<rparr> \<and>
   load GradeManager no_files DATA_FILE = Inr GradeManager"
  using load_missing_file [of no_files DATA_FILE "\<lparr>students = [], next_id = 4\<rparr>"]
  by (simp add: no_files_def)

text \<open>
  Claim C2 as first stated has the collection empty after such a \<open>load\<close>, for every
  manager. A manager that holds a record still holds it afterwards.
\<close>
theorem load_missing_file_counterexample:
  "no_files DATA_FILE = Absent \<and>
   load \<lparr>students = [\<lparr>student_id = 1, name = ''Ada'', subjects = [(''Math'', 95)]\<rparr>], next_id = 2\<rparr>
     no_files DATA_FILE =
     Inr \<lparr>students = [\<lparr>student_id = 1, name = ''Ada'', subjects = [(''Math'', 95)]\<rparr>], next_id = 2\<rparr>"
  by (simp add: load_def no_files_def)

text \<open>
  Claim C3, as amended. When the file holds an array whose elements are objects with
  the keys \<^verbatim>\<open>id\<close> and \<^verbatim>\<open>name\<close>, \<open>load\<close> replaces the collection by the records read from
  the elements, in order. If at least one record was read, \<open>next_id\<close> becomes one more
  than the greatest id read; if the array is empty, \<open>next_id\<close> stays what it was.
\<close>
theorem load_array:
  assumes "fs file = File (Array data)"
    and "\<forall>d\<in>set data. \<exists>i nm subs. d = Object (Some i) (Some nm) subs"
  shows "\<exists>m'. load m fs file = Inr m' \<and>
           list_all2 (\<lambda>d s. from_dict d = Inr s) data (students m') \<and>
           next_id m' = (if data = [] then next_id m
                         else Max (student_id ` set (students m')) + 1)"
proof -
  from from_dicts_objects[OF assms(2)] obtain stus where
    dec: "from_dicts data = Inr stus" and all: "list_all2 (\<lambda>d s. from_dict d = Inr s) data stus"
    by blast
  from all have len: "length data = length stus" by (rule list_all2_lengthD)
  show ?thesis
  proof (cases "stus = []")
    case True
    with len have "data = []" by simp
    with True dec all assms(1) show ?thesis by (simp add: load_def)
  next
    case False
    with len have ne: "data \<noteq> []" by auto
    from False have "py_max (map student_id stus) = Inr (Max (set (map student_id stus)))"
      by (simp add: py_max_Max)
    with False ne dec all assms(1) show ?thesis by (simp add: load_def Let_def)
  qed
qed

theorem load_array_witness:
  "load GradeManager
     (no_files(DATA_FILE := File (Array [Object (Some 4) (Some '' Ada'') (Some [(''Math'', 95)]),
                                         Object (Some 2) (Some ''Bo'') None])))
     DATA_FILE =
     Inr \<lparr>students = [\<lparr>student_id = 4, name = ''Ada'', subjects = [(''Math'', 95)]\<rparr>,
                       \<lparr>student_id = 2, name = ''Bo'', subjects = []\<rparr>], next_id = 5\<rparr> \<and>
   load \<lparr>students = [\<lparr>student_id = 6, name = ''Cy'', subjects = []\<rparr>], next_id = 7\<rparr>
     (no_files(DATA_FILE := File (Array []))) DATA_FILE =
     Inr \<lparr>students = [], next_id = 7\<rparr>"
  using load_array [of "no_files(DATA_FILE := File (Array []))" DATA_FILE "[]"
      "\<lparr>students = [\<lparr>student_id = 6, name = ''Cy'', subjects = []\<rparr>], next_id = 7\<rparr>"]
    load_array [of "no_files(DATA_FILE := File (Array [Object (Some 4) (Some '' Ada'') (Some [(''Math'', 95)]),
                                         Object (Some 2) (Some ''Bo'') None]))" DATA_FILE
      "[Object (Some 4) (Some '' Ada'') (Some [(''Math'', 95)]), Object (Some 2) (Some ''Bo'') None]"
      GradeManager]
  by (simp add: load_def Student_def strip_def isspace_def GradeManager_def)

text \<open>
  Claim C3 as first stated has \<open>next_id\<close> reset to 1 when the array is empty. The
  assignment to \<^verbatim>\<open>_next_id\<close> is guarded by \<^verbatim>\<open>if self.students\<close>: a manager that has
  handed out the ids 1 and 2 keeps \<open>next_id = 3\<close>.
\<close>
theorem load_empty_array_counterexample:
  "load \<lparr>students = [\<lparr>student_id = 1, name = ''Ada'', subjects = []\<rparr>,
                      \<lparr>student_id = 2, name = ''Bo'', subjects = []\<rparr>], next_id = 3\<rparr>
     (no_files(DATA_FILE := File (Array []))) DATA_FILE =
     Inr \<lparr>students = [], next_id = 3\<rparr>"
  by (simp add: load_def)

text \<open>
  Claim C4. Let the names of the records be trimmed, as \<^verbatim>\<open>Student.__init__\<close> leaves
  every name, and let the path be no directory. Then \<open>save\<close> returns, and \<open>load\<close> from
  the same path, by any manager, returns with the same sequence of records: the same
  length and order, and at each position the same id, name and subjects.
\<close>
theorem save_load_roundtrip:
  assumes "fs file \<noteq> Directory"
    and "\<forall>s\<in>set (students m). strip (name s) = name s"
  shows "\<exists>fs' m''. save m fs file = Inr fs' \<and> load m' fs' file = Inr m'' \<and>
           students m'' = students m \<and>
           length (students m'') = length (students m) \<and>
           (\<forall>i<length (students m).
              student_id (students m'' ! i) = student_id (students m ! i) \<and>
              name (students m'' ! i) = name (students m ! i) \<and>
              subjects (students m'' ! i) = subjects (students m ! i))"
proof -
  let ?fs' = "fs(file := File (Array (map to_dict (students m))))"
  have sv: "save m fs file = Inr ?fs'"
    using assms(1) by (simp add: save_def Let_def split: entry.splits)
  have dec: "from_dicts (map to_dict (students m)) = Inr (students m)"
    by (rule from_dicts_to_dict[OF assms(2)])
  have "\<exists>m''. load m' ?fs' file = Inr m'' \<and> students m'' = students m"
  proof (cases "students m = []")
    case True
    then show ?thesis using dec by (simp add: load_def)
  next
    case False
    then have "py_max (map student_id (students m)) = Inr (Max (set (map student_id (students m))))"
      by (simp add: py_max_Max)
    with False dec show ?thesis by (simp add: load_def Let_def)
  qed
  with sv show ?thesis by auto
qed

theorem save_load_roundtrip_witness:
  "\<exists>fs'. save \<lparr>students = [\<lparr>student_id = 1, name = ''Ada'', subjects = [(''Math'', 95), (''History'', 88)]\<rparr>,
                        \<lparr>student_id = 2, name = ''Bo'', subjects = []\<rparr>], next_id = 3\<rparr>
             no_files DATA_FILE = Inr fs' \<and>
          load GradeManager fs' DATA_FILE =
            Inr \<lparr>students = [\<lparr>student_id = 1, name = ''Ada'', subjects = [(''Math'', 95), (''History'', 88)]\<rparr>,
                        \<lparr>student_id = 2, name = ''Bo'', subjects = []\<rparr>], next_id = 3\<rparr>"
  using save_load_roundtrip [of no_files DATA_FILE
      "\<lparr>students = [\<lparr>student_id = 1, name = ''Ada'', subjects = [(''Math'', 95), (''History'', 88)]\<rparr>,
                        \<lparr>student_id = 2, name = ''Bo'', subjects = []\<rparr>], next_id = 3\<rparr>" GradeManager]
  by (simp add: save_def load_def to_dict_def Student_def strip_def isspace_def GradeManager_def
      no_files_def)

subsection \<open>Names stay trimmed\<close>

text \<open>
  Every record that \<open>add_student\<close> or \<open>load\<close> puts into the collection has a trimmed
  name, and \<open>delete\<close> removes records only: the hypothesis on the names in the
  round trip holds of every manager that these operations build from a new one.
\<close>

lemma add_student_loop_keeps_name:
  "add_student_loop stu scores = Inr stu' \<Longrightarrow> name stu' = name stu \<and> student_id stu' = student_id stu"
proof (induction scores arbitrary: stu)
  case Nil
  then show ?case by simp
next
  case (Cons x rest)
  obtain k v where x: "x = (k, v)" by (cases x)
  from Cons.prems x obtain stu1 where s1: "set_score stu k v = Inr stu1"
    and rest: "add_student_loop stu1 rest = Inr stu'"
    by (auto split: sum.splits)
  from s1 have "name stu1 = name stu \<and> student_id stu1 = student_id stu"
    by (auto simp: set_score_def split: if_splits)
  with Cons.IH[OF rest] show ?case by simp
qed

lemma add_student_names_trimmed:
  assumes "add_student m nm scores = Inr (stu, m')"
    and "\<forall>s\<in>set (students m). strip (name s) = name s"
  shows "\<forall>s\<in>set (students m'). strip (name s) = name s"
proof -
  from assms(1) have loop: "add_student_loop (Student (next_id m) nm) scores = Inr stu"
    and m': "m' = m\<lparr>students := students m @ [stu], next_id := next_id m + 1\<rparr>"
    by (auto simp: add_student_def Let_def split: sum.splits prod.splits)
  from add_student_loop_keeps_name[OF loop] have "name stu = strip nm"
    by (simp add: Student_def)
  with assms(2) m' show ?thesis by (auto simp: strip_idem)
qed

lemma from_dict_name_trimmed: "from_dict d = Inr s \<Longrightarrow> strip (name s) = name s"
  by (induction d rule: from_dict.induct) (auto simp: Student_def strip_idem)

lemma from_dicts_names_trimmed:
  "from_dicts data = Inr stus \<Longrightarrow> \<forall>s\<in>set stus. strip (name s) = name s"
  by (induction data arbitrary: stus) (auto split: sum.splits dest: from_dict_name_trimmed)

lemma load_names_trimmed:
  assumes "load m fs file = Inr m'"
    and "\<forall>s\<in>set (students m). strip (name s) = name s"
  shows "\<forall>s\<in>set (students m'). strip (name s) = name s"
  using assms
  by (auto simp: load_def Let_def split: entry.splits content.splits sum.splits if_splits
      dest: from_dicts_names_trimmed)

lemma delete_names_trimmed:
  assumes "delete m sid = (b, m')"
    and "\<forall>s\<in>set (students m). strip (name s) = name s"
  shows "\<forall>s\<in>set (students m'). strip (name s) = name s"
  using assms by (auto simp: delete_def Let_def)

end
